theory Spec2Isabelle
  imports Main
begin

section \<open>The promo-code codec of backend/server.py\<close>

text \<open>
  Python \<open>str\<close> values are modelled as \<open>string\<close>, Python \<open>bytes\<close> values as
  \<open>bytes\<close> (a list of 8-bit characters).  The functions of the libraries the file
  imports (\<open>cryptography.fernet\<close>, \<open>base64\<close>, \<open>bson\<close>, \<open>datetime\<close>, the codecs
  behind \<open>str.encode\<close> and \<open>bytes.decode\<close>) are not part of the repository: they are
  the fields of a record \<open>lib\<close> that every function of the model receives.  A field
  with an \<open>option\<close> result returns \<open>None\<close> where the library call raises.
\<close>

type_synonym bytes = "char list"
type_synonym oid = nat

text \<open>
  A \<open>datetime\<close> is naive (no UTC offset, as \<open>datetime.utcnow()\<close> returns it) or
  aware (with an offset); the integer is the instant.  Python refuses to order a naive
  and an aware value (\<open>TypeError\<close>).
\<close>

datatype datetime = Naive int | Aware int

record lib =
  str_encode :: "string \<Rightarrow> bytes option"
  bytes_decode :: "bytes \<Rightarrow> string option"
  urlsafe_b64encode :: "bytes \<Rightarrow> bytes"
  urlsafe_b64decode :: "bytes \<Rightarrow> bytes option"
  fernet_encrypt :: "bytes \<Rightarrow> bytes \<Rightarrow> bytes"
  fernet_decrypt :: "bytes \<Rightarrow> bytes option"
  ObjectId :: "string \<Rightarrow> oid option"
  oid_str :: "oid \<Rightarrow> string"
  fromisoformat :: "string \<Rightarrow> datetime option"

text \<open>
  \<open>fernet_encrypt L rnd data\<close> is \<open>fernet.encrypt(data)\<close>; \<open>rnd\<close> is the timestamp and
  the random initialisation vector the call draws.  \<open>ObjectId L s\<close> is \<open>ObjectId(s)\<close>
  (\<open>None\<close>: \<open>bson.errors.InvalidId\<close>), \<open>oid_str L i\<close> is \<open>str(i)\<close>.
  \<open>str_encode L s\<close> is \<open>s.encode()\<close> (\<open>None\<close>: \<open>UnicodeEncodeError\<close>, raised on a lone
  surrogate) and \<open>bytes_decode L b\<close> is \<open>b.decode()\<close> (\<open>None\<close>: \<open>UnicodeDecodeError\<close>).
  \<open>fromisoformat L s\<close> is \<open>datetime.fromisoformat(s)\<close> (\<open>None\<close>: \<open>ValueError\<close>).
\<close>

datatype error =
    HTTPException nat string
  | InvalidId
  | ValueError
  | TypeError
  | UnicodeEncodeError
  | UnicodeDecodeError

abbreviation Forbidden :: error where
  "Forbidden \<equiv> HTTPException 403 ''Not authorized''"
abbreviation PostNotFound :: error where
  "PostNotFound \<equiv> HTTPException 404 ''Post not found''"
abbreviation PromoNotFound :: error where
  "PromoNotFound \<equiv> HTTPException 404 ''Promo code not found''"
abbreviation InvalidCodeError :: error where
  "InvalidCodeError \<equiv> HTTPException 400 ''Invalid promo code''"
abbreviation RestaurantMismatch :: error where
  "RestaurantMismatch \<equiv> HTTPException 400 ''Invalid promo code for this restaurant''"
abbreviation Expired :: error where
  "Expired \<equiv> HTTPException 400 ''Promo code expired''"

text \<open>\<open>s.split(sep)\<close> for a separator of one character: never the empty list.\<close>

fun str_split :: "char \<Rightarrow> string \<Rightarrow> string list" where
  "str_split sep [] = [[]]"
| "str_split sep (c # cs) =
     (if c = sep then [] # str_split sep cs
      else (case str_split sep cs of
              [] \<Rightarrow> [[c]]
            | p # ps \<Rightarrow> (c # p) # ps))"

text \<open>\<open>xs[i]\<close> for \<open>i \<ge> 0\<close>; \<open>None\<close> is \<open>IndexError\<close>.\<close>

definition getitem :: "'a list \<Rightarrow> nat \<Rightarrow> 'a option" where
  "getitem xs i = (if i < length xs then Some (xs ! i) else None)"

record promo_fields =
  promo_text :: string
  promoter_id :: string
  restaurant_id :: string
  post_id :: string
  dish_id :: string

definition encrypt_promo_code ::
  "lib \<Rightarrow> bytes \<Rightarrow> string \<Rightarrow> string \<Rightarrow> string \<Rightarrow> string \<Rightarrow> string \<Rightarrow> error + string" where
  "encrypt_promo_code L rnd promo_text' promoter_id' restaurant_id' post_id' dish_id' =
     (let data = promo_text' @ ''|'' @ promoter_id' @ ''|'' @ restaurant_id' @ ''|''
                   @ post_id' @ ''|'' @ dish_id'
      in case str_encode L data of
           None \<Rightarrow> Inl UnicodeEncodeError
         | Some raw \<Rightarrow>
             (let encrypted = fernet_encrypt L rnd raw
              in case bytes_decode L (urlsafe_b64encode L encrypted) of
                   None \<Rightarrow> Inl UnicodeDecodeError
                 | Some code \<Rightarrow> Inr code))"

text \<open>
  Every exception raised inside the \<open>try\<close> block (\<open>UnicodeEncodeError\<close>,
  \<open>binascii.Error\<close>, \<open>InvalidToken\<close>, \<open>UnicodeDecodeError\<close>, \<open>IndexError\<close>) is turned into
  the same \<open>HTTPException\<close>.
\<close>

definition decrypt_promo_code :: "lib \<Rightarrow> string \<Rightarrow> error + promo_fields" where
  "decrypt_promo_code L encrypted_code =
     (case str_encode L encrypted_code of
        None \<Rightarrow> Inl InvalidCodeError
      | Some raw \<Rightarrow>
     (case urlsafe_b64decode L raw of
        None \<Rightarrow> Inl InvalidCodeError
      | Some decoded \<Rightarrow>
          (case fernet_decrypt L decoded of
             None \<Rightarrow> Inl InvalidCodeError
           | Some plain \<Rightarrow>
               (case bytes_decode L plain of
                  None \<Rightarrow> Inl InvalidCodeError
                | Some decrypted \<Rightarrow>
                    (let parts = str_split CHR ''|'' decrypted
                     in case (getitem parts 0, getitem parts 1, getitem parts 2, getitem parts 3) of
                          (Some p0, Some p1, Some p2, Some p3) \<Rightarrow>
                            Inr \<lparr>promo_text = p0, promoter_id = p1, restaurant_id = p2,
                                 post_id = p3,
                                 dish_id = (if length parts > 4 then parts ! 4 else [])\<rparr>
                        | _ \<Rightarrow> Inl InvalidCodeError)))))"

text \<open>
  What the code relies on from the libraries: text encoding succeeds, decryption,
  base64 decoding and text decoding undo encryption, base64 encoding and text
  encoding, and the base64 text is a byte string that \<open>decode()\<close> and \<open>encode()\<close> carry
  to a \<open>str\<close> and back.
\<close>

definition lib_roundtrip :: "lib \<Rightarrow> bool" where
  "lib_roundtrip L \<longleftrightarrow>
     (\<forall>rnd b. fernet_decrypt L (fernet_encrypt L rnd b) = Some b) \<and>
     (\<forall>b. urlsafe_b64decode L (urlsafe_b64encode L b) = Some b) \<and>
     (\<forall>s. \<exists>b. str_encode L s = Some b \<and> bytes_decode L b = Some s) \<and>
     (\<forall>b. \<exists>s. bytes_decode L (urlsafe_b64encode L b) = Some s
                \<and> str_encode L s = Some (urlsafe_b64encode L b))"


section \<open>The document store\<close>

text \<open>
  The three collections the promotion handlers touch, each a list of documents in
  insertion order.  \<open>find_one\<close> returns the first match, \<open>update_one\<close> changes the first
  match and nothing when there is none, \<open>insert_one\<close> appends.  The \<open>_id\<close> a new
  document receives is drawn from the counter \<open>next_oid\<close>.  A post keeps the fields the
  handlers read or write (\<open>image_base64\<close>, \<open>caption\<close>, \<open>likes\<close>, \<open>comments\<close> and the like
  are left out).  Times are points of \<open>datetime.utcnow()\<close>, as integers; a handler
  reads the clock once (\<open>now\<close>).
\<close>

record post =
  post_oid :: oid
  user_id :: string
  restaurant_tagged_id :: "string option"
  is_promotion_request :: bool
  promotion_status :: string
  promo_code_id :: "string option"
  updated_at :: int

record redemption =
  redeemer_user_id :: string
  redeemed_at :: int
  restaurant_confirmation_status :: string

record promocode =
  promo_oid :: oid
  code_encrypted :: string
  promoter_foodie_id :: string
  promo_restaurant_id :: string
  promo_post_id :: string
  offer_description :: string
  expiry_date :: "string option"
  redemptions :: "redemption list"
  created_at :: int

record transaction =
  amount :: int
  txn_type :: string
  source_promo_code_id :: string
  txn_date :: int

record loyalty =
  loyalty_oid :: oid
  loyalty_restaurant_id :: string
  foodie_id :: string
  points :: int
  transactions :: "transaction list"
  last_updated :: int

record db =
  posts :: "post list"
  promocodes :: "promocode list"
  loyalty_points :: "loyalty list"
  next_oid :: oid

definition find_one :: "('a \<Rightarrow> bool) \<Rightarrow> 'a list \<Rightarrow> 'a option" where
  "find_one P coll = List.find P coll"

fun update_one :: "('a \<Rightarrow> bool) \<Rightarrow> ('a \<Rightarrow> 'a) \<Rightarrow> 'a list \<Rightarrow> 'a list" where
  "update_one P f [] = []"
| "update_one P f (x # xs) = (if P x then f x # xs else x # update_one P f xs)"

definition insert_one :: "'a \<Rightarrow> 'a list \<Rightarrow> 'a list" where
  "insert_one doc coll = coll @ [doc]"

section \<open>The promotion handlers\<close>

record PromoApprove =
  promo_code_plain_text :: string
  approve_offer_description :: string
  approve_expiry_date :: "string option"

record PromoRedeem =
  promo_code_encrypted :: string
  redeem_redeemer_user_id :: string

text \<open>
  A handler returns what it answers (or the exception that leaves it) together with
  the store as it is at that moment: an exception does not undo a write made before
  it.  \<open>current_user\<close> is \<open>current_user["user_id"]\<close>, the authenticated principal.
\<close>

definition approve_promo ::
  "lib \<Rightarrow> db \<Rightarrow> int \<Rightarrow> bytes \<Rightarrow> string \<Rightarrow> string \<Rightarrow> PromoApprove \<Rightarrow> string
     \<Rightarrow> (error + string) \<times> db" where
  "approve_promo L d now rnd restaurant_id' post_id' promo current_user =
     (if current_user \<noteq> restaurant_id' then (Inl Forbidden, d)
      else case ObjectId L post_id' of
        None \<Rightarrow> (Inl InvalidId, d)
      | Some i \<Rightarrow>
          (case find_one (\<lambda>p. post_oid p = i) (posts d) of
             None \<Rightarrow> (Inl PostNotFound, d)
           | Some post \<Rightarrow>
               (case encrypt_promo_code L rnd (promo_code_plain_text promo) (user_id post)
                       restaurant_id' post_id' [] of
                  Inl e \<Rightarrow> (Inl e, d)
                | Inr encrypted_code \<Rightarrow>
                    (let promo_dict =
                           \<lparr>promo_oid = next_oid d,
                            code_encrypted = encrypted_code,
                            promoter_foodie_id = user_id post,
                            promo_restaurant_id = restaurant_id',
                            promo_post_id = post_id',
                            offer_description = approve_offer_description promo,
                            expiry_date = approve_expiry_date promo,
                            redemptions = [],
                            created_at = now\<rparr>;
                         d1 = d\<lparr>promocodes := insert_one promo_dict (promocodes d),
                                next_oid := next_oid d + 1\<rparr>;
                         promo_code_id' = oid_str L (promo_oid promo_dict);
                         d2 = d1\<lparr>posts :=
                                update_one (\<lambda>p. post_oid p = i)
                                  (\<lambda>p. p\<lparr>promotion_status := ''Approved'',
                                         promo_code_id := Some promo_code_id',
                                         updated_at := now\<rparr>)
                                  (posts d1)\<rparr>
                     in (Inr encrypted_code, d2)))))"

definition reject_promo ::
  "lib \<Rightarrow> db \<Rightarrow> int \<Rightarrow> string \<Rightarrow> string \<Rightarrow> string \<Rightarrow> (error + string) \<times> db" where
  "reject_promo L d now restaurant_id' post_id' current_user =
     (if current_user \<noteq> restaurant_id' then (Inl Forbidden, d)
      else case ObjectId L post_id' of
        None \<Rightarrow> (Inl InvalidId, d)
      | Some i \<Rightarrow>
          (Inr ''Promo rejected'',
           d\<lparr>posts :=
               update_one (\<lambda>p. post_oid p = i)
                 (\<lambda>p. p\<lparr>promotion_status := ''Rejected'', updated_at := now\<rparr>)
                 (posts d)\<rparr>))"

definition redeem_promo ::
  "lib \<Rightarrow> db \<Rightarrow> int \<Rightarrow> string \<Rightarrow> PromoRedeem \<Rightarrow> string \<Rightarrow> (error + int) \<times> db" where
  "redeem_promo L d now restaurant_id' redemption current_user =
     (if current_user \<noteq> restaurant_id' then (Inl Forbidden, d)
      else case decrypt_promo_code L (promo_code_encrypted redemption) of
        Inl e \<Rightarrow> (Inl e, d)
      | Inr decrypted \<Rightarrow>
          if restaurant_id decrypted \<noteq> restaurant_id' then (Inl RestaurantMismatch, d)
          else
          (case find_one (\<lambda>p. promo_post_id p = post_id decrypted) (promocodes d) of
            None \<Rightarrow> (Inl PromoNotFound, d)
          | Some promo \<Rightarrow>
              (case (case expiry_date promo of
                       None \<Rightarrow> Inr False
                     | Some s \<Rightarrow>
                         if s = [] then Inr False
                         else (case fromisoformat L s of
                                 None \<Rightarrow> Inl ValueError
                               | Some (Aware expiry) \<Rightarrow> Inl TypeError
                               | Some (Naive expiry) \<Rightarrow> Inr (now > expiry))) of
                 Inl e \<Rightarrow> (Inl e, d)
               | Inr True \<Rightarrow> (Inl Expired, d)
               | Inr False \<Rightarrow>
                   (let redemption_obj =
                          \<lparr>redeemer_user_id = redeem_redeemer_user_id redemption,
                           redeemed_at = now,
                           restaurant_confirmation_status = ''Confirmed''\<rparr>;
                        d1 = d\<lparr>promocodes :=
                               update_one (\<lambda>p. promo_oid p = promo_oid promo)
                                 (\<lambda>p. p\<lparr>redemptions := redemptions p @ [redemption_obj]\<rparr>)
                                 (promocodes d)\<rparr>;
                        promoter_id' = promoter_id decrypted;
                        txn = \<lparr>amount = 10, txn_type = ''Earned'',
                               source_promo_code_id = oid_str L (promo_oid promo),
                               txn_date = now\<rparr>
                    in case find_one (\<lambda>l. loyalty_restaurant_id l = restaurant_id'
                                          \<and> foodie_id l = promoter_id')
                              (loyalty_points d1) of
                         Some loyalty \<Rightarrow>
                           (Inr 10,
                            d1\<lparr>loyalty_points :=
                                 update_one (\<lambda>l. loyalty_oid l = loyalty_oid loyalty)
                                   (\<lambda>l. l\<lparr>points := points l + 10,
                                          transactions := transactions l @ [txn],
                                          last_updated := now\<rparr>)
                                   (loyalty_points d1)\<rparr>)
                       | None \<Rightarrow>
                           (Inr 10,
                            d1\<lparr>loyalty_points :=
                                 insert_one
                                   \<lparr>loyalty_oid = next_oid d1,
                                    loyalty_restaurant_id = restaurant_id',
                                    foodie_id = promoter_id',
                                    points = 10,
                                    transactions = [txn],
                                    last_updated = now\<rparr>
                                   (loyalty_points d1),
                               next_oid := next_oid d1 + 1\<rparr>)))))"

section \<open>A small instance of the library interface\<close>

text \<open>
  Closed examples need the library functions at concrete values.  \<open>toy_lib\<close> supplies
  them: UTF-8 for the code points below 256 (all a \<open>char\<close> can hold), hexadecimal
  text in the place of base64, a cipher that prefixes the plaintext with the six
  characters every Fernet token starts with and one character drawn from \<open>rnd\<close> (it
  authenticates nothing), object ids as 24 hexadecimal digits, and ISO dates written
  \<open>YYYY-MM-DD\<close> or \<open>YYYY-MM-DDTHH:MM:SS\<close> (naive) or the latter followed by
  \<open>+00:00\<close> (aware), read as the number \<open>YYYYMMDDHHMMSS\<close>.  No general theorem below
  depends on it.
\<close>

definition hex_digit :: "nat \<Rightarrow> char" where
  "hex_digit n = (if n < 10 then char_of (48 + n) else char_of (87 + n))"

definition hex_val :: "char \<Rightarrow> nat option" where
  "hex_val c =
     (let n = of_char c :: nat
      in if 48 \<le> n \<and> n < 58 then Some (n - 48)
         else if 97 \<le> n \<and> n < 103 then Some (n - 87)
         else if 65 \<le> n \<and> n < 71 then Some (n - 55)
         else None)"

fun hex_encode :: "bytes \<Rightarrow> bytes" where
  "hex_encode [] = []"
| "hex_encode (c # cs) =
     hex_digit (of_char c div 16) # hex_digit (of_char c mod 16) # hex_encode cs"

fun hex_decode :: "bytes \<Rightarrow> bytes option" where
  "hex_decode [] = Some []"
| "hex_decode [c] = None"
| "hex_decode (a # b # cs) =
     (case (hex_val a, hex_val b, hex_decode cs) of
        (Some h, Some l, Some r) \<Rightarrow> Some (char_of (16 * h + l) # r)
      | _ \<Rightarrow> None)"

fun utf8_encode :: "string \<Rightarrow> bytes" where
  "utf8_encode [] = []"
| "utf8_encode (c # cs) =
     (if (of_char c :: nat) < 128 then c # utf8_encode cs
      else char_of (192 + (of_char c :: nat) div 64)
             # char_of (128 + (of_char c :: nat) mod 64) # utf8_encode cs)"

fun utf8_decode :: "bytes \<Rightarrow> string option" where
  "utf8_decode [] = Some []"
| "utf8_decode (c # cs) =
     (if (of_char c :: nat) < 128 then map_option ((#) c) (utf8_decode cs)
      else (case cs of
              [] \<Rightarrow> None
            | d # ds \<Rightarrow>
                if (of_char c = (194::nat) \<or> of_char c = (195::nat))
                   \<and> 128 \<le> (of_char d :: nat) \<and> (of_char d :: nat) < 192
                then map_option ((#) (char_of (((of_char c :: nat) - 192) * 64
                                               + ((of_char d :: nat) - 128))))
                       (utf8_decode ds)
                else None))"

definition toy_encrypt :: "bytes \<Rightarrow> bytes \<Rightarrow> bytes" where
  "toy_encrypt rnd b = ''gAAAAA'' @ (case rnd of [] \<Rightarrow> CHR ''A'' | r # _ \<Rightarrow> r) # b"

definition toy_decrypt :: "bytes \<Rightarrow> bytes option" where
  "toy_decrypt tok =
     (if 7 \<le> length tok \<and> take 6 tok = ''gAAAAA'' then Some (drop 7 tok) else None)"

fun hex_number :: "nat \<Rightarrow> string \<Rightarrow> nat option" where
  "hex_number acc [] = Some acc"
| "hex_number acc (c # cs) =
     (case hex_val c of None \<Rightarrow> None | Some h \<Rightarrow> hex_number (16 * acc + h) cs)"

definition toy_ObjectId :: "string \<Rightarrow> oid option" where
  "toy_ObjectId s = (if length s = 24 then hex_number 0 s else None)"

fun hex_string :: "nat \<Rightarrow> nat \<Rightarrow> string" where
  "hex_string 0 n = []"
| "hex_string (Suc k) n = hex_string k (n div 16) @ [hex_digit (n mod 16)]"

definition toy_oid_str :: "oid \<Rightarrow> string" where
  "toy_oid_str i = hex_string 24 i"

fun dec_number :: "int \<Rightarrow> string \<Rightarrow> int option" where
  "dec_number acc [] = Some acc"
| "dec_number acc (c # cs) =
     (if 48 \<le> (of_char c :: int) \<and> (of_char c :: int) < 58
      then dec_number (10 * acc + (of_char c - 48)) cs else None)"

definition iso_date :: "string \<Rightarrow> int option" where
  "iso_date s =
     (if length s = 10 \<and> s ! 4 = CHR ''-'' \<and> s ! 7 = CHR ''-''
      then (case (dec_number 0 (take 4 s), dec_number 0 (take 2 (drop 5 s)),
                  dec_number 0 (drop 8 s)) of
              (Some y, Some m, Some d) \<Rightarrow> Some (y * 10000 + m * 100 + d)
            | _ \<Rightarrow> None)
      else None)"

definition iso_time :: "string \<Rightarrow> int option" where
  "iso_time s =
     (if length s = 9 \<and> s ! 0 = CHR ''T'' \<and> s ! 3 = CHR '':'' \<and> s ! 6 = CHR '':''
      then (case (dec_number 0 (take 2 (drop 1 s)), dec_number 0 (take 2 (drop 4 s)),
                  dec_number 0 (drop 7 s)) of
              (Some h, Some m, Some sec) \<Rightarrow> Some (h * 10000 + m * 100 + sec)
            | _ \<Rightarrow> None)
      else None)"

definition toy_fromisoformat :: "string \<Rightarrow> datetime option" where
  "toy_fromisoformat s =
     (case iso_date (take 10 s) of
        None \<Rightarrow> None
      | Some day \<Rightarrow>
          if length s = 10 then Some (Naive (day * 1000000))
          else (case iso_time (take 9 (drop 10 s)) of
                  None \<Rightarrow> None
                | Some time \<Rightarrow>
                    if length s = 19 then Some (Naive (day * 1000000 + time))
                    else if drop 19 s = ''+00:00'' then Some (Aware (day * 1000000 + time))
                    else None))"

definition toy_lib :: lib where
  "toy_lib =
     \<lparr>str_encode = (\<lambda>s. Some (utf8_encode s)), bytes_decode = utf8_decode,
      urlsafe_b64encode = hex_encode, urlsafe_b64decode = hex_decode,
      fernet_encrypt = toy_encrypt, fernet_decrypt = toy_decrypt,
      ObjectId = toy_ObjectId, oid_str = toy_oid_str,
      fromisoformat = toy_fromisoformat\<rparr>"


section \<open>URL-safe base64 as Python decodes it\<close>








section \<open>Sequences of redemptions and the loyalty ledger\<close>

text \<open>
  \<open>ledger_ids_ok\<close> is what the database guarantees of a collection: the \<open>_id\<close>s of its
  documents are pairwise different (here also below the counter new ids come from).
  \<open>ledgers_for R F d\<close> are the loyalty documents of restaurant \<open>R\<close> and foodie \<open>F\<close>.
  \<open>redeem_seq\<close> runs redemption calls one after the other, each on the store the
  previous one left, and returns their outcomes with the final store.  A call with its
  outcome \<open>credits\<close> the pair \<open>(R, F)\<close> when it succeeded, was made for restaurant \<open>R\<close>
  and its code decodes to promoter \<open>F\<close>.
\<close>

definition ledger_ids_ok :: "db \<Rightarrow> bool" where
  "ledger_ids_ok d \<longleftrightarrow>
     distinct (map loyalty_oid (loyalty_points d))
     \<and> list_all (\<lambda>l. loyalty_oid l < next_oid d) (loyalty_points d)"

definition ledgers_for :: "string \<Rightarrow> string \<Rightarrow> db \<Rightarrow> loyalty list" where
  "ledgers_for R F d =
     filter (\<lambda>l. loyalty_restaurant_id l = R \<and> foodie_id l = F) (loyalty_points d)"

record redeem_call =
  call_now :: int
  call_restaurant_id :: string
  call_body :: PromoRedeem
  call_user :: string

fun redeem_seq :: "lib \<Rightarrow> db \<Rightarrow> redeem_call list \<Rightarrow> (error + int) list \<times> db" where
  "redeem_seq L d [] = ([], d)"
| "redeem_seq L d (c # cs) =
     (case redeem_promo L d (call_now c) (call_restaurant_id c) (call_body c) (call_user c) of
        (r, d1) \<Rightarrow> (case redeem_seq L d1 cs of (rs, d2) \<Rightarrow> (r # rs, d2)))"

definition credits :: "lib \<Rightarrow> string \<Rightarrow> string \<Rightarrow> redeem_call \<times> (error + int) \<Rightarrow> bool" where
  "credits L R F cr =
     (case cr of
        (c, Inl e) \<Rightarrow> False
      | (c, Inr v) \<Rightarrow>
          call_restaurant_id c = R
          \<and> (case decrypt_promo_code L (promo_code_encrypted (call_body c)) of
                Inl e \<Rightarrow> False
              | Inr f \<Rightarrow> promoter_id f = F))"

definition ledger_total :: "string \<Rightarrow> string \<Rightarrow> nat \<Rightarrow> db \<Rightarrow> bool" where
  "ledger_total R F n d \<longleftrightarrow>
     (if n = 0 then ledgers_for R F d = []
      else (case ledgers_for R F d of
              [l] \<Rightarrow> points l = 10 * int n \<and> length (transactions l) = n
            | _ \<Rightarrow> False))"

section \<open>Example data\<close>

text \<open>
  One post of foodie \<open>f1\<close> that tags restaurant \<open>r1\<close> and asks for a promotion
  (\<open>ex_db0\<close>), the store after \<open>r1\<close> has approved it (\<open>ex_db1\<close>), after \<open>r2\<close> has approved
  it as well (\<open>ex_db2\<close>), after an approval by \<open>r1\<close> whose promo text contains the
  delimiter (\<open>ex_db_inj\<close>), after an approval with an expiry date (\<open>ex_db_exp\<close>, and
  \<open>ex_db_aware\<close>, \<open>ex_db_aware_past\<close> with an offset in it) and after a second approval
  by \<open>r1\<close> that sets an expiry date (\<open>ex_db_twice\<close>), with the codes these approvals
  return under \<open>toy_lib\<close>; then a code with one field changed (\<open>ex_code_forged\<close>), a
  code whose plaintext is not UTF-8 (\<open>ex_code_bad\<close>), and a code minted under \<open>b64_lib\<close>
  with one bit of its last character flipped (\<open>ex_code_b64\<close>, \<open>ex_code_b64_flipped\<close>).
\<close>

definition ex_post_id :: string where
  "ex_post_id = ''000000000000000000000001''"

definition ex_post :: post where
  "ex_post =
     \<lparr>post_oid = 1, user_id = ''f1'', restaurant_tagged_id = Some ''r1'',
      is_promotion_request = True, promotion_status = ''Pending'',
      promo_code_id = None, updated_at = 0\<rparr>"

definition ex_db0 :: db where
  "ex_db0 = \<lparr>posts = [ex_post], promocodes = [], loyalty_points = [], next_oid = 2\<rparr>"

definition ex_approve :: PromoApprove where
  "ex_approve =
     \<lparr>promo_code_plain_text = ''SAVE10'', approve_offer_description = ''10% off'',
      approve_expiry_date = None\<rparr>"

definition ex_approve_inj :: PromoApprove where
  "ex_approve_inj =
     \<lparr>promo_code_plain_text = ''SAVE|f1|r2|000000000000000000000001'',
      approve_offer_description = ''10% off'', approve_expiry_date = None\<rparr>"


definition ex_code_r1 :: string where
  "ex_code_r1 =
     ''674141414141785341564531307c66317c72317c3030303030303030303030303030303030303030303030317c''"

definition ex_code_r2 :: string where
  "ex_code_r2 =
     ''674141414141795341564531307c66317c72327c3030303030303030303030303030303030303030303030317c''"

definition ex_code_inj :: string where
  "ex_code_inj =
     ''67414141414178534156457c66317c72327c3030303030303030303030303030303030303030303030317c66317c72317c3030303030303030303030303030303030303030303030317c''"


definition ex_promo :: "oid \<Rightarrow> string \<Rightarrow> string \<Rightarrow> string option \<Rightarrow> int \<Rightarrow> promocode" where
  "ex_promo i code r e t =
     \<lparr>promo_oid = i, code_encrypted = code, promoter_foodie_id = ''f1'',
      promo_restaurant_id = r, promo_post_id = ex_post_id, offer_description = ''10% off'',
      expiry_date = e, redemptions = [], created_at = t\<rparr>"

definition ex_db1 :: db where
  "ex_db1 =
     \<lparr>posts = [ex_post\<lparr>promotion_status := ''Approved'',
                        promo_code_id := Some ''000000000000000000000002'',
                        updated_at := 100\<rparr>],
      promocodes = [ex_promo 2 ex_code_r1 ''r1'' None 100],
      loyalty_points = [], next_oid = 3\<rparr>"

definition ex_db2 :: db where
  "ex_db2 =
     \<lparr>posts = [ex_post\<lparr>promotion_status := ''Approved'',
                        promo_code_id := Some ''000000000000000000000003'',
                        updated_at := 200\<rparr>],
      promocodes = [ex_promo 2 ex_code_r1 ''r1'' None 100, ex_promo 3 ex_code_r2 ''r2'' None 200],
      loyalty_points = [], next_oid = 4\<rparr>"

definition ex_db_inj :: db where
  "ex_db_inj = ex_db1\<lparr>promocodes := [ex_promo 2 ex_code_inj ''r1'' None 100]\<rparr>"


definition ex_redeem :: "string \<Rightarrow> PromoRedeem" where
  "ex_redeem code = \<lparr>promo_code_encrypted = code, redeem_redeemer_user_id = ''u9''\<rparr>"

definition ex_calls :: "redeem_call list" where
  "ex_calls =
     [\<lparr>call_now = 300, call_restaurant_id = ''r1'', call_body = ex_redeem ex_code_r1,
       call_user = ''r1''\<rparr>,
      \<lparr>call_now = 400, call_restaurant_id = ''r2'', call_body = ex_redeem ex_code_r1,
       call_user = ''r2''\<rparr>,
      \<lparr>call_now = 500, call_restaurant_id = ''r1'', call_body = ex_redeem ex_code_r1,
       call_user = ''r1''\<rparr>]"



definition succeeded :: "error + 'a \<Rightarrow> bool" where
  "succeeded r = (case r of Inl e \<Rightarrow> False | Inr v \<Rightarrow> True)"










section \<open>Splitting a joined record\<close>

lemma str_split_not_Nil: "str_split sep s \<noteq> []"
  by (induction s) (auto split: list.splits)

lemma str_split_no_sep: "sep \<notin> set s \<Longrightarrow> str_split sep s = [s]"
  by (induction s) auto

lemma str_split_append:
  "sep \<notin> set a \<Longrightarrow> str_split sep (a @ sep # rest) = a # str_split sep rest"
  by (induction a) auto

section \<open>The instance satisfies the round-trip laws\<close>

lemma hex_val_digit: "n < 16 \<Longrightarrow> hex_val (hex_digit n) = Some n"
  by (auto simp: hex_val_def hex_digit_def Let_def)

lemma div16: "(of_char c :: nat) div 16 < 16"
proof -
  have "(of_char c :: nat) < 16 * 16" by simp
  then show ?thesis by (rule less_mult_imp_div_less)
qed

lemma hex_decode_encode: "hex_decode (hex_encode b) = Some b"
proof (induction b)
  case Nil
  show ?case by simp
next
  case (Cons c b)
  have b: "(of_char c :: nat) mod 16 < 16" by simp
  show ?case using Cons by (simp add: hex_val_digit [OF div16] hex_val_digit [OF b])
qed

lemma utf8_lead:
  fixes n :: nat
  assumes "\<not> n < 128" "n < 256"
  shows "of_char (char_of (192 + n div 64)) = 192 + n div 64"
    and "of_char (char_of (128 + n mod 64)) = 128 + n mod 64"
    and "192 + n div 64 = 194 \<or> 192 + n div 64 = 195"
    and "(n div 64) * 64 + n mod 64 = n"
proof -
  have d: "n div 64 = 2 \<or> n div 64 = 3" using assms by linarith
  have m: "n mod 64 < 64" by simp
  from d show "of_char (char_of (192 + n div 64)) = 192 + n div 64" by auto
  from m show "of_char (char_of (128 + n mod 64)) = 128 + n mod 64" by simp
  from d show "192 + n div 64 = 194 \<or> 192 + n div 64 = 195" by auto
  show "(n div 64) * 64 + n mod 64 = n" by simp
qed

lemma utf8_decode_encode: "utf8_decode (utf8_encode s) = Some s"
proof (induction s)
  case Nil
  then show ?case by simp
next
  case (Cons c s)
  show ?case
  proof (cases "(of_char c :: nat) < 128")
    case True
    with Cons show ?thesis by simp
  next
    case False
    have lt: "(of_char c :: nat) < 256" by simp
    note u = utf8_lead [OF False lt]
    have m: "(of_char c :: nat) mod 64 < 64" by simp
    from u(3) have nl: "\<not> (192 + (of_char c :: nat) div 64 < 128)" by linarith
    show ?thesis
      using False Cons u(3) m
      by (simp add: u(1) u(2) u(4) nl del: of_char_of)
  qed
qed

lemma hex_digit_ascii: "n < 16 \<Longrightarrow> (of_char (hex_digit n) :: nat) < 128"
  by (auto simp: hex_digit_def)

lemma utf8_hex_encode:
  "utf8_decode (hex_encode b) = Some (hex_encode b) \<and> utf8_encode (hex_encode b) = hex_encode b"
proof (induction b)
  case Nil
  show ?case by simp
next
  case (Cons c b)
  have b: "(of_char c :: nat) mod 16 < 16" by simp
  show ?case
    using Cons hex_digit_ascii [OF div16, of c] hex_digit_ascii [OF b] by simp
qed

lemma toy_decrypt_encrypt: "toy_decrypt (toy_encrypt rnd b) = Some b"
  by (simp add: toy_decrypt_def toy_encrypt_def)

lemma lib_roundtrip_toy: "lib_roundtrip toy_lib"
  by (simp add: lib_roundtrip_def toy_lib_def hex_decode_encode utf8_decode_encode
      utf8_hex_encode toy_decrypt_encrypt)

section \<open>Decoding a minted code\<close>

lemma split_joined:
  assumes "CHR ''|'' \<notin> set a" "CHR ''|'' \<notin> set b" "CHR ''|'' \<notin> set c"
    "CHR ''|'' \<notin> set d" "CHR ''|'' \<notin> set e"
  shows "str_split CHR ''|'' (a @ ''|'' @ b @ ''|'' @ c @ ''|'' @ d @ ''|'' @ e) = [a, b, c, d, e]"
  using assms by (simp add: str_split_append str_split_no_sep)

lemma encrypt_minted:
  assumes "lib_roundtrip L"
  shows "\<exists>code raw. encrypt_promo_code L rnd t p r q d = Inr code
           \<and> str_encode L (t @ ''|'' @ p @ ''|'' @ r @ ''|'' @ q @ ''|'' @ d) = Some raw
           \<and> bytes_decode L raw = Some (t @ ''|'' @ p @ ''|'' @ r @ ''|'' @ q @ ''|'' @ d)
           \<and> str_encode L code = Some (urlsafe_b64encode L (fernet_encrypt L rnd raw))"
proof -
  let ?data = "t @ ''|'' @ p @ ''|'' @ r @ ''|'' @ q @ ''|'' @ d"
  from assms obtain raw where raw: "str_encode L ?data = Some raw" "bytes_decode L raw = Some ?data"
    unfolding lib_roundtrip_def by blast
  let ?tok = "fernet_encrypt L rnd raw"
  from assms obtain s where s: "bytes_decode L (urlsafe_b64encode L ?tok) = Some s"
    "str_encode L s = Some (urlsafe_b64encode L ?tok)"
    unfolding lib_roundtrip_def by blast
  have "encrypt_promo_code L rnd t p r q d = Inr s"
    using raw(1) s(1) by (simp add: encrypt_promo_code_def)
  with raw s(2) show ?thesis by blast
qed

lemma decrypt_minted:
  assumes L: "lib_roundtrip L"
    and code: "encrypt_promo_code L rnd t p r q d = Inr code"
    and nosep: "CHR ''|'' \<notin> set t" "CHR ''|'' \<notin> set p" "CHR ''|'' \<notin> set r"
      "CHR ''|'' \<notin> set q" "CHR ''|'' \<notin> set d"
  shows "decrypt_promo_code L code =
           Inr \<lparr>promo_text = t, promoter_id = p, restaurant_id = r, post_id = q, dish_id = d\<rparr>"
proof -
  let ?data = "t @ ''|'' @ p @ ''|'' @ r @ ''|'' @ q @ ''|'' @ d"
  from encrypt_minted [OF L, of rnd t p r q d] code
  obtain raw where raw: "bytes_decode L raw = Some ?data"
    and e: "str_encode L code = Some (urlsafe_b64encode L (fernet_encrypt L rnd raw))"
    by auto
  from L have b: "urlsafe_b64decode L (urlsafe_b64encode L (fernet_encrypt L rnd raw))
                  = Some (fernet_encrypt L rnd raw)"
    unfolding lib_roundtrip_def by blast
  from L have f: "fernet_decrypt L (fernet_encrypt L rnd raw) = Some raw"
    unfolding lib_roundtrip_def by blast
  from split_joined [OF nosep]
  have s: "str_split CHR ''|'' ?data = [t, p, r, q, d]" .
  show ?thesis
    using e b f raw s by (simp add: decrypt_promo_code_def getitem_def)
qed

section \<open>Claims about the codec\<close>

text \<open>
  Claim C1.  Whenever the libraries undo their own encodings (\<open>lib_roundtrip\<close>) and
  none of \<open>promo_text\<close>, \<open>promoter_id\<close>, \<open>restaurant_id\<close>, \<open>post_id\<close>, \<open>dish_id\<close> contains
  the delimiter \<open>|\<close>, \<open>encrypt_promo_code\<close> returns a code and \<open>decrypt_promo_code\<close> of that
  code returns exactly the five fields; an empty \<open>dish_id\<close> comes back empty (the case
  \<open>d = []\<close>).
\<close>

theorem codec_roundtrip:
  assumes "lib_roundtrip L"
    and "CHR ''|'' \<notin> set t" and "CHR ''|'' \<notin> set p" and "CHR ''|'' \<notin> set r"
    and "CHR ''|'' \<notin> set q" and "CHR ''|'' \<notin> set d"
  shows "\<exists>code. encrypt_promo_code L rnd t p r q d = Inr code
           \<and> decrypt_promo_code L code =
               Inr \<lparr>promo_text = t, promoter_id = p, restaurant_id = r, post_id = q,
                    dish_id = d\<rparr>"
proof -
  from encrypt_minted [OF assms(1), of rnd t p r q d]
  obtain code where c: "encrypt_promo_code L rnd t p r q d = Inr code" by blast
  from decrypt_minted [OF assms(1) c assms(2-6)] c show ?thesis by blast
qed

theorem codec_roundtrip_witness:
  "lib_roundtrip toy_lib
   \<and> CHR ''|'' \<notin> set ''SAVE10'' \<and> CHR ''|'' \<notin> set ''f1'' \<and> CHR ''|'' \<notin> set ''r1''
   \<and> CHR ''|'' \<notin> set ''p1'' \<and> CHR ''|'' \<notin> set ''''
   \<and> (\<exists>code. encrypt_promo_code toy_lib ''x'' ''SAVE10'' ''f1'' ''r1'' ''p1'' '''' = Inr code
         \<and> decrypt_promo_code toy_lib code =
             Inr \<lparr>promo_text = ''SAVE10'', promoter_id = ''f1'', restaurant_id = ''r1'',
                  post_id = ''p1'', dish_id = ''''\<rparr>)"
  using codec_roundtrip [OF lib_roundtrip_toy, of "''SAVE10''" "''f1''" "''r1''" "''p1''" "''''" "''x''"]
    lib_roundtrip_toy
  by simp

section \<open>The layers of decoding\<close>




text \<open>
  Two codes that the base64 decoder maps to the same token give the same answer,
  whatever the cipher is.
\<close>

lemma same_token_same_answer:
  assumes "str_encode L c1 = Some r1" and "str_encode L c2 = Some r2"
    and "urlsafe_b64decode L r1 = urlsafe_b64decode L r2"
  shows "decrypt_promo_code L c1 = decrypt_promo_code L c2"
  using assms by (simp add: decrypt_promo_code_def)






section \<open>Store and ledger lemmas\<close>

lemma redeem_error_unchanged:
  "redeem_promo L d now rid red actor = (Inl e, d') \<Longrightarrow> d' = d"
  unfolding redeem_promo_def Let_def
  by (auto split: if_splits sum.splits option.splits bool.splits datetime.splits)

lemma find_one_Some: "find_one P xs = Some x \<Longrightarrow> P x \<and> x \<in> set xs"
  unfolding find_one_def by (induction xs) (auto split: if_splits)

lemma find_one_None: "find_one P xs = None \<longleftrightarrow> (\<forall>x\<in>set xs. \<not> P x)"
  unfolding find_one_def by (auto simp: find_None_iff)

lemma update_one_distinct:
  "distinct (map k xs) \<Longrightarrow>
     update_one (\<lambda>x. k x = i) g xs = map (\<lambda>x. if k x = i then g x else x) xs"
proof (induction xs)
  case Nil
  show ?case by simp
next
  case (Cons x xs)
  show ?case
  proof (cases "k x = i")
    case True
    with Cons.prems have "\<forall>y\<in>set xs. k y \<noteq> i" by (auto simp: image_iff)
    then have "map (\<lambda>x. if k x = i then g x else x) xs = xs"
      by (induction xs) auto
    with True show ?thesis by simp
  next
    case False
    with Cons show ?thesis by simp
  qed
qed

text \<open>What a successful redemption does to the loyalty collection.\<close>

lemma redeem_success_ledger:
  assumes "redeem_promo L d now rid red actor = (Inr v, d')"
  shows "\<exists>f txn. decrypt_promo_code L (promo_code_encrypted red) = Inr f
          \<and> (case find_one (\<lambda>l. loyalty_restaurant_id l = rid \<and> foodie_id l = promoter_id f)
                     (loyalty_points d) of
                Some l \<Rightarrow>
                  loyalty_points d' =
                    update_one (\<lambda>x. loyalty_oid x = loyalty_oid l)
                      (\<lambda>x. x\<lparr>points := points x + 10,
                             transactions := transactions x @ [txn],
                             last_updated := now\<rparr>)
                      (loyalty_points d)
                  \<and> next_oid d' = next_oid d
              | None \<Rightarrow>
                  loyalty_points d' =
                    loyalty_points d @
                      [\<lparr>loyalty_oid = next_oid d, loyalty_restaurant_id = rid,
                        foodie_id = promoter_id f, points = 10, transactions = [txn],
                        last_updated = now\<rparr>]
                  \<and> next_oid d' = next_oid d + 1)"
  using assms unfolding redeem_promo_def Let_def insert_one_def
  by (auto split: if_splits sum.splits option.splits bool.splits datetime.splits)
lemma update_one_no_match: "find_one P xs = None \<Longrightarrow> update_one P f xs = xs"
  unfolding find_one_def by (induction xs) (auto split: if_splits)

lemma ledger_total_Suc:
  "ledger_total R F (Suc n) d \<longleftrightarrow>
     (\<exists>l. ledgers_for R F d = [l] \<and> points l = 10 * int (Suc n)
          \<and> length (transactions l) = Suc n)"
  unfolding ledger_total_def by (auto split: list.splits)

lemma distinct_key_eq:
  "distinct (map k xs) \<Longrightarrow> x \<in> set xs \<Longrightarrow> y \<in> set xs \<Longrightarrow> k x = k y \<Longrightarrow> x = y"
  by (meson distinct_map inj_onD)

lemma filter_map_same:
  "(\<And>x. x \<in> set xs \<Longrightarrow> Q (h x) = Q x) \<Longrightarrow> filter Q (map h xs) = map h (filter Q xs)"
  by (induction xs) auto

lemma redeem_step_update:
  fixes g :: "loyalty \<Rightarrow> loyalty" and txn :: transaction and now :: int
  defines "g \<equiv> (\<lambda>x. x\<lparr>points := points x + 10, transactions := transactions x @ [txn],
                        last_updated := now\<rparr>)"
  assumes ok: "ledger_ids_ok d"
    and st: "ledger_total R F n d"
    and fnd: "find_one (\<lambda>l. loyalty_restaurant_id l = rid \<and> foodie_id l = P) (loyalty_points d)
              = Some l"
    and upd: "loyalty_points d' = update_one (\<lambda>x. loyalty_oid x = loyalty_oid l) g (loyalty_points d)"
    and nxt: "next_oid d' = next_oid d"
  shows "ledger_ids_ok d' \<and> ledger_total R F (if rid = R \<and> P = F then Suc n else n) d'"
proof -
  let ?xs = "loyalty_points d"
  let ?h = "\<lambda>x. if loyalty_oid x = loyalty_oid l then g x else x"
  from ok have dist: "distinct (map loyalty_oid ?xs)"
    and bound: "\<forall>x\<in>set ?xs. loyalty_oid x < next_oid d"
    by (simp_all add: ledger_ids_ok_def list_all_iff)
  from fnd have l_in: "l \<in> set ?xs" and l_pair: "loyalty_restaurant_id l = rid" "foodie_id l = P"
    using find_one_Some [OF fnd] by simp_all
  have new: "loyalty_points d' = map ?h ?xs"
    using upd update_one_distinct [OF dist, of "loyalty_oid l" g] by simp
  have ids: "map loyalty_oid (map ?h ?xs) = map loyalty_oid ?xs"
    by (simp add: g_def)
  have ok': "ledger_ids_ok d'"
    using dist bound nxt unfolding ledger_ids_ok_def new ids
    by (auto simp: list_all_iff g_def)
  let ?Q = "\<lambda>x. loyalty_restaurant_id x = R \<and> foodie_id x = F"
  have flt: "filter ?Q (map ?h ?xs) = map ?h (filter ?Q ?xs)"
    by (rule filter_map_same) (simp add: g_def)
  have only_l: "\<And>x. x \<in> set ?xs \<Longrightarrow> loyalty_oid x = loyalty_oid l \<Longrightarrow> x = l"
    using distinct_key_eq [OF dist _ l_in] by blast
  show ?thesis
  proof (cases "rid = R \<and> P = F")
    case True
    with l_in l_pair have "l \<in> set (filter ?Q ?xs)" by simp
    then have ne: "ledgers_for R F d \<noteq> []"
      unfolding ledgers_for_def by (metis empty_iff list.set(1))
    with st obtain m where n: "n = Suc m" unfolding ledger_total_def by (cases n) auto
    from st n have "\<exists>l0. ledgers_for R F d = [l0] \<and> points l0 = 10 * int n
        \<and> length (transactions l0) = n"
      by (simp only: ledger_total_Suc)
    then obtain l0 where l0: "ledgers_for R F d = [l0]" "points l0 = 10 * int n"
      "length (transactions l0) = n"
      by blast
    from \<open>l \<in> set (filter ?Q ?xs)\<close> l0(1) have "l0 = l" unfolding ledgers_for_def by simp
    with l0 have "ledgers_for R F d' = [g l]"
      unfolding ledgers_for_def new flt by simp
    moreover have "points (g l) = 10 * int (Suc n)" "length (transactions (g l)) = Suc n"
      using l0 \<open>l0 = l\<close> by (simp_all add: g_def)
    ultimately have "ledger_total R F (Suc n) d'" unfolding ledger_total_Suc by simp
    with ok' True show ?thesis by auto
  next
    case False
    with l_pair have nQ: "\<not> ?Q l" by auto
    have "map ?h (filter ?Q ?xs) = filter ?Q ?xs"
    proof (rule map_idI)
      fix x assume "x \<in> set (filter ?Q ?xs)"
      then have "x \<in> set ?xs" "?Q x" by simp_all
      with only_l nQ have "loyalty_oid x \<noteq> loyalty_oid l" by blast
      then show "?h x = x" by simp
    qed
    then have "ledgers_for R F d' = ledgers_for R F d"
      unfolding ledgers_for_def new flt .
    with st have "ledger_total R F n d'" unfolding ledger_total_def by simp
    with ok' False show ?thesis by auto
  qed
qed

lemma redeem_step_insert:
  assumes ok: "ledger_ids_ok d"
    and st: "ledger_total R F n d"
    and fnd: "find_one (\<lambda>l. loyalty_restaurant_id l = rid \<and> foodie_id l = P) (loyalty_points d)
              = None"
    and ins: "loyalty_points d' =
                loyalty_points d @
                  [\<lparr>loyalty_oid = next_oid d, loyalty_restaurant_id = rid, foodie_id = P,
                    points = 10, transactions = [txn], last_updated = now\<rparr>]"
    and nxt: "next_oid d' = next_oid d + 1"
  shows "ledger_ids_ok d' \<and> ledger_total R F (if rid = R \<and> P = F then Suc n else n) d'"
proof -
  let ?xs = "loyalty_points d"
  from ok have dist: "distinct (map loyalty_oid ?xs)"
    and bound: "\<forall>x\<in>set ?xs. loyalty_oid x < next_oid d"
    by (simp_all add: ledger_ids_ok_def list_all_iff)
  from bound have fresh: "next_oid d \<notin> loyalty_oid ` set ?xs" by auto
  have ok': "ledger_ids_ok d'"
    using dist bound fresh unfolding ledger_ids_ok_def ins nxt
    by (auto simp: list_all_iff less_Suc_eq)
  show ?thesis
  proof (cases "rid = R \<and> P = F")
    case True
    with fnd have "ledgers_for R F d = []"
      unfolding ledgers_for_def find_one_None by (simp add: filter_empty_conv)
    moreover from this st have "n = 0" unfolding ledger_total_def by (cases n) auto
    ultimately have "ledger_total R F (Suc n) d'"
      using True unfolding ledger_total_Suc by (simp add: ledgers_for_def ins)
    with ok' True show ?thesis by auto
  next
    case False
    then have "ledgers_for R F d' = ledgers_for R F d"
      unfolding ledgers_for_def ins by auto
    with st have "ledger_total R F n d'" unfolding ledger_total_def by simp
    with ok' False show ?thesis by auto
  qed
qed
lemma redeem_step:
  assumes ok: "ledger_ids_ok d"
    and st: "ledger_total R F n d"
    and run: "redeem_promo L d (call_now c) (call_restaurant_id c) (call_body c) (call_user c)
              = (r, d')"
  shows "ledger_ids_ok d' \<and> ledger_total R F (if credits L R F (c, r) then Suc n else n) d'"
proof (cases r)
  case (Inl e)
  with run have "d' = d" by (auto dest: redeem_error_unchanged)
  with ok st Inl show ?thesis by (simp add: credits_def)
next
  case (Inr v)
  from redeem_success_ledger [OF run [unfolded Inr]]
  obtain f txn where f: "decrypt_promo_code L (promo_code_encrypted (call_body c)) = Inr f"
    and eff: "(case find_one (\<lambda>l. loyalty_restaurant_id l = call_restaurant_id c
                                \<and> foodie_id l = promoter_id f) (loyalty_points d) of
                Some l \<Rightarrow>
                  loyalty_points d' =
                    update_one (\<lambda>x. loyalty_oid x = loyalty_oid l)
                      (\<lambda>x. x\<lparr>points := points x + 10,
                             transactions := transactions x @ [txn],
                             last_updated := call_now c\<rparr>)
                      (loyalty_points d)
                  \<and> next_oid d' = next_oid d
              | None \<Rightarrow>
                  loyalty_points d' =
                    loyalty_points d @
                      [\<lparr>loyalty_oid = next_oid d, loyalty_restaurant_id = call_restaurant_id c,
                        foodie_id = promoter_id f, points = 10, transactions = [txn],
                        last_updated = call_now c\<rparr>]
                  \<and> next_oid d' = next_oid d + 1)"
    by blast
  have cr: "credits L R F (c, r) \<longleftrightarrow> call_restaurant_id c = R \<and> promoter_id f = F"
    using Inr f by (simp add: credits_def)
  show ?thesis
  proof (cases "find_one (\<lambda>l. loyalty_restaurant_id l = call_restaurant_id c
                              \<and> foodie_id l = promoter_id f) (loyalty_points d)")
    case None
    with eff show ?thesis
      unfolding cr by (intro redeem_step_insert [OF ok st None]) simp_all
  next
    case (Some l)
    with eff show ?thesis
      unfolding cr by (intro redeem_step_update [OF ok st Some]) simp_all
  qed
qed

lemma redeem_seq_total:
  assumes "ledger_ids_ok d" and "ledger_total R F n d" and "redeem_seq L d cs = (rs, d')"
  shows "ledger_ids_ok d'
       \<and> ledger_total R F (n + length (filter (credits L R F) (zip cs rs))) d'"
  using assms
proof (induction cs arbitrary: d n rs)
  case Nil
  then show ?case by simp
next
  case (Cons c cs)
  obtain r d1 where one:
    "redeem_promo L d (call_now c) (call_restaurant_id c) (call_body c) (call_user c) = (r, d1)"
    by (cases "redeem_promo L d (call_now c) (call_restaurant_id c) (call_body c) (call_user c)")
  obtain rs1 d2 where rest: "redeem_seq L d1 cs = (rs1, d2)"
    by (cases "redeem_seq L d1 cs")
  from Cons.prems(3) one rest have res: "rs = r # rs1" "d' = d2" by simp_all
  from redeem_step [OF Cons.prems(1,2) one]
  have ok1: "ledger_ids_ok d1"
    and st1: "ledger_total R F (if credits L R F (c, r) then Suc n else n) d1"
    by simp_all
  from rest res have rest': "redeem_seq L d1 cs = (rs1, d')" by simp
  from Cons.IH [OF ok1 st1 rest'] res show ?case
    by (cases "credits L R F (c, r)") simp_all
qed

section \<open>Claims about redemption\<close>

text \<open>
  Claim C2, as the code has it.  A redemption that succeeds was made by the restaurant
  named in the request, the code it presented decodes, the decoded \<open>restaurant_id\<close> is
  that restaurant, and the PromoCode record is the first one whose \<open>post_id\<close> equals the
  decoded \<open>post_id\<close>.  The record's \<open>promoter_foodie_id\<close> and \<open>restaurant_id\<close> are not
  compared with the decoded ones.
\<close>

theorem redeem_success_checks:
  assumes "redeem_promo L d now rid red actor = (Inr v, d')"
  shows "actor = rid
       \<and> (\<exists>f promo. decrypt_promo_code L (promo_code_encrypted red) = Inr f
             \<and> restaurant_id f = actor
             \<and> find_one (\<lambda>p. promo_post_id p = post_id f) (promocodes d) = Some promo
             \<and> promo_post_id promo = post_id f)"
  using assms unfolding redeem_promo_def Let_def
  by (auto split: if_splits sum.splits option.splits bool.splits datetime.splits
      dest: find_one_Some)

theorem redeem_success_checks_witness:
  "fst (redeem_promo toy_lib ex_db1 300 ''r1'' (ex_redeem ex_code_r1) ''r1'') = Inr 10
   \<and> (\<exists>f promo. decrypt_promo_code toy_lib (promo_code_encrypted (ex_redeem ex_code_r1)) = Inr f
         \<and> restaurant_id f = ''r1''
         \<and> find_one (\<lambda>p. promo_post_id p = post_id f) (promocodes ex_db1) = Some promo
         \<and> promo_post_id promo = post_id f)"
proof -
  have e1: "fst (redeem_promo toy_lib ex_db1 300 ''r1'' (ex_redeem ex_code_r1) ''r1'') = Inr 10"
    by code_simp
  then have e: "redeem_promo toy_lib ex_db1 300 ''r1'' (ex_redeem ex_code_r1) ''r1''
           = (Inr 10, snd (redeem_promo toy_lib ex_db1 300 ''r1'' (ex_redeem ex_code_r1) ''r1''))"
    by (metis prod.collapse)
  from redeem_success_checks [OF e] e1 show ?thesis by blast
qed

text \<open>
  The claim as the spec states it fails: after restaurant \<open>r1\<close> and then restaurant \<open>r2\<close>
  have approved the same post, the code minted for \<open>r2\<close> is redeemed by \<open>r2\<close> with
  success, and the record retrieved by \<open>post_id\<close> is the one of \<open>r1\<close>.
\<close>

theorem redeem_tuple_mismatch:
  "approve_promo toy_lib ex_db0 100 ''x'' ''r1'' ex_post_id ex_approve ''r1'' = (Inr ex_code_r1, ex_db1)
   \<and> approve_promo toy_lib ex_db1 200 ''y'' ''r2'' ex_post_id ex_approve ''r2'' = (Inr ex_code_r2, ex_db2)
   \<and> fst (redeem_promo toy_lib ex_db2 300 ''r2'' (ex_redeem ex_code_r2) ''r2'') = Inr 10
   \<and> decrypt_promo_code toy_lib ex_code_r2 =
       Inr \<lparr>promo_text = ''SAVE10'', promoter_id = ''f1'', restaurant_id = ''r2'',
            post_id = ex_post_id, dish_id = ''''\<rparr>
   \<and> map_option promo_restaurant_id
        (find_one (\<lambda>p. promo_post_id p = ex_post_id) (promocodes ex_db2)) = Some ''r1''"
  by code_simp

text \<open>
  Where restaurant matching is sound: a code minted for restaurant \<open>R1\<close> from fields
  without the delimiter, presented by the authenticated restaurant \<open>R2 \<noteq> R1\<close>, is
  refused with RestaurantMismatch and the store stays as it was.
\<close>

lemma redeem_other_restaurant:
  assumes "lib_roundtrip L"
    and "encrypt_promo_code L rnd t p R1 q dish = Inr code"
    and "CHR ''|'' \<notin> set t" and "CHR ''|'' \<notin> set p" and "CHR ''|'' \<notin> set R1"
    and "CHR ''|'' \<notin> set q" and "CHR ''|'' \<notin> set dish"
    and "R2 \<noteq> R1" and "promo_code_encrypted red = code"
  shows "redeem_promo L d now R2 red R2 = (Inl RestaurantMismatch, d)"
  using decrypt_minted [OF assms(1-7)] assms(8,9)
  by (simp add: redeem_promo_def)

text \<open>
  Claim C5 at a failing input.  Restaurant \<open>r1\<close> approves the post with a promo text
  that contains the delimiter; the code it mints decodes to restaurant \<open>r2\<close>, and \<open>r2\<close>
  redeems it with success: ten points are credited.
\<close>

theorem injected_code_redeemed_elsewhere:
  "approve_promo toy_lib ex_db0 100 ''x'' ''r1'' ex_post_id ex_approve_inj ''r1''
     = (Inr ex_code_inj, ex_db_inj)
   \<and> map promo_restaurant_id (promocodes ex_db_inj) = [''r1'']
   \<and> fst (redeem_promo toy_lib ex_db_inj 300 ''r2'' (ex_redeem ex_code_inj) ''r2'') = Inr 10
   \<and> map points
        (loyalty_points (snd (redeem_promo toy_lib ex_db_inj 300 ''r2'' (ex_redeem ex_code_inj) ''r2'')))
       = [10]"
  by code_simp




text \<open>
  Claim C7.  Whenever \<open>redeem_promo\<close> ends in an error (not authorized, invalid code,
  restaurant mismatch, promo code not found, expired, or an expiry date it cannot
  read), the store it leaves is the store it was given: no redemption is appended and
  no loyalty record is created or changed.
\<close>

theorem redeem_failure_no_partial_state:
  assumes "fst (redeem_promo L d now rid red actor) = Inl e"
  shows "snd (redeem_promo L d now rid red actor) = d"
  using assms redeem_error_unchanged [of L d now rid red actor e "snd (redeem_promo L d now rid red actor)"]
  by (cases "redeem_promo L d now rid red actor") simp

theorem redeem_failure_no_partial_state_witness:
  "fst (redeem_promo toy_lib ex_db1 300 ''r2'' (ex_redeem ex_code_r1) ''r2'') = Inl RestaurantMismatch
   \<and> snd (redeem_promo toy_lib ex_db1 300 ''r2'' (ex_redeem ex_code_r1) ''r2'') = ex_db1"
proof -
  have e: "fst (redeem_promo toy_lib ex_db1 300 ''r2'' (ex_redeem ex_code_r1) ''r2'')
           = Inl RestaurantMismatch"
    by code_simp
  from redeem_failure_no_partial_state [OF e] e show ?thesis by simp
qed

text \<open>
  Claim C8.  Start from a store with unique ledger ids and no ledger record for the
  pair \<open>(R, F)\<close>, and run any sequence of redemption calls; let \<open>N\<close> be the number of
  calls in it that succeed and credit the pair (made for restaurant \<open>R\<close> with a code
  whose promoter is \<open>F\<close>).  If \<open>N > 0\<close>, the final store holds exactly one ledger record
  for the pair, with \<open>10 * N\<close> points and \<open>N\<close> transactions.
\<close>

theorem ledger_after_redemptions:
  assumes "ledger_ids_ok d"
    and "ledgers_for R F d = []"
    and "redeem_seq L d cs = (rs, d')"
    and "N = length (filter (credits L R F) (zip cs rs))"
    and "0 < N"
  shows "\<exists>l. ledgers_for R F d' = [l] \<and> points l = 10 * int N
           \<and> length (transactions l) = N"
proof -
  from assms(2) have "ledger_total R F 0 d" by (simp add: ledger_total_def)
  from redeem_seq_total [OF assms(1) this assms(3)] assms(4)
  have "ledger_total R F N d'" by simp
  moreover from assms(5) obtain m where "N = Suc m" by (cases N) auto
  ultimately show ?thesis by (simp add: ledger_total_Suc)
qed

theorem ledger_after_redemptions_witness:
  "ledger_ids_ok ex_db1
   \<and> ledgers_for ''r1'' ''f1'' ex_db1 = []
   \<and> fst (redeem_seq toy_lib ex_db1 ex_calls) = [Inr 10, Inl RestaurantMismatch, Inr 10]
   \<and> (\<exists>l. ledgers_for ''r1'' ''f1'' (snd (redeem_seq toy_lib ex_db1 ex_calls)) = [l]
         \<and> points l = 20 \<and> length (transactions l) = 2)"
proof -
  have ok: "ledger_ids_ok ex_db1" by code_simp
  have none: "ledgers_for ''r1'' ''f1'' ex_db1 = []" by code_simp
  have rs: "fst (redeem_seq toy_lib ex_db1 ex_calls) = [Inr 10, Inl RestaurantMismatch, Inr 10]"
    by code_simp
  have run: "redeem_seq toy_lib ex_db1 ex_calls
             = (fst (redeem_seq toy_lib ex_db1 ex_calls), snd (redeem_seq toy_lib ex_db1 ex_calls))"
    by simp
  have n: "2 = length (filter (credits toy_lib ''r1'' ''f1'')
                 (zip ex_calls (fst (redeem_seq toy_lib ex_db1 ex_calls))))"
    by code_simp
  from ledger_after_redemptions [OF ok none run n] ok none rs show ?thesis by simp
qed

section \<open>Claims about approval and rejection\<close>

text \<open>
  What the approval guard does check: a principal other than the restaurant named in
  the request path is refused, and nothing is written.
\<close>

lemma approve_forbidden:
  "actor \<noteq> rid \<Longrightarrow> approve_promo L d now rnd rid pid promo actor = (Inl Forbidden, d)"
  by (simp add: approve_promo_def)

text \<open>
  Claim C3 at a failing input.  The post is tagged with restaurant \<open>r1\<close>; restaurant
  \<open>r2\<close>, acting under its own id, approves it: the call succeeds, a PromoCode owned by
  \<open>r2\<close> is created and the post is marked Approved.
\<close>

theorem approve_by_untagged_restaurant:
  "map restaurant_tagged_id (posts ex_db0) = [Some ''r1'']
   \<and> succeeded (fst (approve_promo toy_lib ex_db0 100 ''x'' ''r2'' ex_post_id ex_approve ''r2''))
   \<and> map promo_restaurant_id
        (promocodes (snd (approve_promo toy_lib ex_db0 100 ''x'' ''r2'' ex_post_id ex_approve ''r2'')))
       = [''r2'']
   \<and> map promotion_status
        (posts (snd (approve_promo toy_lib ex_db0 100 ''x'' ''r2'' ex_post_id ex_approve ''r2'')))
       = [''Approved'']"
  by code_simp

text \<open>
  Claim C4 at a failing input.  The post of \<open>ex_db1\<close> is Approved.  A Reject call turns
  it to Rejected, and an Approve call on that Rejected post turns it to Approved again
  and stores a second PromoCode.
\<close>

theorem terminal_status_overwritten:
  "map promotion_status (posts ex_db1) = [''Approved'']
   \<and> fst (reject_promo toy_lib ex_db1 300 ''r1'' ex_post_id ''r1'') = Inr ''Promo rejected''
   \<and> map promotion_status (posts (snd (reject_promo toy_lib ex_db1 300 ''r1'' ex_post_id ''r1'')))
       = [''Rejected'']
   \<and> succeeded (fst (approve_promo toy_lib
          (snd (reject_promo toy_lib ex_db1 300 ''r1'' ex_post_id ''r1''))
          400 ''z'' ''r1'' ex_post_id ex_approve ''r1''))
   \<and> map promotion_status
        (posts (snd (approve_promo toy_lib
          (snd (reject_promo toy_lib ex_db1 300 ''r1'' ex_post_id ''r1''))
          400 ''z'' ''r1'' ex_post_id ex_approve ''r1'')))
       = [''Approved'']
   \<and> length (promocodes (snd (approve_promo toy_lib
          (snd (reject_promo toy_lib ex_db1 300 ''r1'' ex_post_id ''r1''))
          400 ''z'' ''r1'' ex_post_id ex_approve ''r1''))) = 2"
  by code_simp

text \<open>
  Claim C10, as the code has it.  A Reject call whose actor is the restaurant of the
  request and whose \<open>post_id\<close> is an object id reports success; when no post has that
  id the store is left as it was; and a Reject call never fails with a 404.
\<close>

theorem reject_reports_success:
  assumes "actor = rid" and "ObjectId L pid = Some i"
  shows "fst (reject_promo L d now rid pid actor) = Inr ''Promo rejected''
       \<and> (find_one (\<lambda>p. post_oid p = i) (posts d) = None
            \<longrightarrow> snd (reject_promo L d now rid pid actor) = d)
       \<and> fst (reject_promo L d now rid pid actor) \<noteq> Inl (HTTPException 404 detail)"
  using assms unfolding reject_promo_def
  by (simp add: update_one_no_match)

theorem reject_reports_success_witness:
  "ObjectId toy_lib ''00000000000000000000000f'' = Some 15
   \<and> find_one (\<lambda>p. post_oid p = 15) (posts ex_db0) = None
   \<and> fst (reject_promo toy_lib ex_db0 300 ''r1'' ''00000000000000000000000f'' ''r1'')
       = Inr ''Promo rejected''
   \<and> snd (reject_promo toy_lib ex_db0 300 ''r1'' ''00000000000000000000000f'' ''r1'') = ex_db0"
proof -
  have i: "ObjectId toy_lib ''00000000000000000000000f'' = Some 15" by code_simp
  have n: "find_one (\<lambda>p. post_oid p = 15) (posts ex_db0) = None" by code_simp
  from reject_reports_success [OF refl i, of ex_db0 300 "''r1''"] i n show ?thesis by simp
qed

text \<open>
  The claim as the spec states it fails where \<open>post_id\<close> is not an object id: the
  actor is the restaurant of the request, and the call ends in \<open>InvalidId\<close>.
\<close>

theorem reject_malformed_post_id:
  "fst (reject_promo toy_lib ex_db0 300 ''r1'' ''nope'' ''r1'') = Inl InvalidId
   \<and> \<not> succeeded (fst (reject_promo toy_lib ex_db0 300 ''r1'' ''nope'' ''r1''))"
  by code_simp

end
